theory Spec2Isabelle
  imports Complex_Main "HOL-Library.Multiset"
begin

section \<open>The UBI and tax policy sandbox (app.py)\<close>

text \<open>
  app.py is a straight-line script: a fixed table of four income groups, five policy
  levers read from the sidebar, and a pandas data frame that gains columns section by
  section. The model follows the script's sections. A data frame is the list of its
  rows; each section that adds columns extends the row record. Python and pandas
  integers are \<^typ>\<open>int\<close>, and \<open>np.nan\<close> is \<open>None\<close>.

  Python floats are modelled by exact rationals (\<^typ>\<open>rat\<close>), a decimal literal standing
  for its decimal value. On the reference table this agrees with binary floating point
  where a result is turned into an integer or compared with a threshold: the four
  products \<open>TOTAL_POP * pop_share\<close> are 30000.0, 40000.0, 20000.0 and 10000.0, and the
  cumulative shares 0.3, 0.7, 0.9 and 1.0 lie on the same side of 0.50 and 0.20 as the
  fractions they round. Rounding of the tax amounts is not modelled.

  The two shell lines that open the file and the streamlit rendering calls of section 7
  compute nothing and are left out.
\<close>

subsection \<open>1. The toy economy\<close>

record income_group =
  name :: string
  pop_share :: rat
  g_avg_income :: int
  g_mpc :: rat

definition INCOME_GROUPS :: "income_group list" where
  "INCOME_GROUPS =
     [\<lparr>name = ''Low'', pop_share = 30 / 100, g_avg_income = 20000, g_mpc = 95 / 100\<rparr>,
      \<lparr>name = ''Lower-Middle'', pop_share = 40 / 100, g_avg_income = 40000, g_mpc = 85 / 100\<rparr>,
      \<lparr>name = ''Upper-Middle'', pop_share = 20 / 100, g_avg_income = 80000, g_mpc = 75 / 100\<rparr>,
      \<lparr>name = ''High'', pop_share = 10 / 100, g_avg_income = 200000, g_mpc = 60 / 100\<rparr>]"

definition TOTAL_POP :: int where
  "TOTAL_POP = 100000"

subsection \<open>2. The policy levers\<close>

text \<open>
  The values of the script's variables after the sidebar has been read: the three rates
  are the slider values divided by 100, \<open>ubi_monthly\<close> comes from an integer slider and
  \<open>ubi_target\<close> is the string the select box returns.
\<close>

record policy =
  vat_rate :: rat
  luxury_tax_rate :: rat
  income_tax_rate :: rat
  ubi_monthly :: int
  ubi_target :: string

text \<open>The options of the select box, and the levers' initial positions.\<close>

definition UBI_TARGETS :: "string list" where
  "UBI_TARGETS = [''Everyone'', ''Bottom 50% income'', ''Bottom 20% income'']"

definition default_policy :: policy where
  "default_policy =
     \<lparr>vat_rate = 10 / 100, luxury_tax_rate = 10 / 100, income_tax_rate = 15 / 100,
      ubi_monthly = 800, ubi_target = ''Everyone''\<rparr>"

subsection \<open>3. The population table\<close>

text \<open>Python's \<open>int(x)\<close> on a float truncates towards zero.\<close>

definition py_int :: "rat \<Rightarrow> int" where
  "py_int x = (if x < 0 then \<lceil>x\<rceil> else \<lfloor>x\<rfloor>)"

record row =
  group :: string
  group_pop :: int
  avg_income :: int
  mpc :: rat
  basic_cons :: rat
  luxury_cons :: rat

text \<open>The \<open>if\<close>/\<open>elif\<close> chain on the group's name: (basic_share, luxury_share).\<close>

definition consumption_shares :: "string \<Rightarrow> rat \<times> rat" where
  "consumption_shares n =
     (if n = ''Low'' then (98 / 100, 2 / 100)
      else if n = ''Lower-Middle'' then (95 / 100, 5 / 100)
      else if n = ''Upper-Middle'' then (90 / 100, 10 / 100)
      else (80 / 100, 20 / 100))"

text \<open>One pass of the loop body: the row appended for group \<open>g\<close>.\<close>

definition make_row :: "income_group \<Rightarrow> row" where
  "make_row g =
     (let group_pop = py_int (of_int TOTAL_POP * pop_share g);
          income = g_avg_income g;
          mpc = g_mpc g;
          consumption = of_int income * mpc;
          (basic_share, luxury_share) = consumption_shares (name g);
          basic_cons = consumption * basic_share;
          luxury_cons = consumption * luxury_share
      in \<lparr>group = name g, group_pop = group_pop, avg_income = income, mpc = mpc,
           basic_cons = basic_cons, luxury_cons = luxury_cons\<rparr>)"

text \<open>
  The loop \<open>for g in INCOME_GROUPS\<close>, with its two variables \<open>rows\<close> and
  \<open>cumulative_pop\<close> as the state (the script never reads \<open>cumulative_pop\<close> again).
\<close>

fun population_loop :: "income_group list \<Rightarrow> row list \<times> int \<Rightarrow> row list \<times> int" where
  "population_loop [] st = st"
| "population_loop (g # gs) (rows, cumulative_pop) =
     population_loop gs (rows @ [make_row g], cumulative_pop + group_pop (make_row g))"

definition population_table :: "income_group list \<Rightarrow> row list" where
  "population_table gs = fst (population_loop gs ([], 0))"

subsection \<open>4. Tax calculations\<close>

record tax_row = row +
  vat_tax_per_person :: rat
  lux_tax_per_person :: rat
  income_tax_per_person :: rat
  total_tax_per_person :: rat
  total_tax_group :: rat

definition tax_columns :: "policy \<Rightarrow> row \<Rightarrow> tax_row" where
  "tax_columns p r =
     (let vat = vat_rate p * (basic_cons r + luxury_cons r);
          lux = luxury_tax_rate p * luxury_cons r;
          inc = income_tax_rate p * of_int (avg_income r);
          total = vat + lux + inc
      in row.extend r (tax_row.fields vat lux inc total (total * of_int (group_pop r))))"

text \<open>The data frame at the end of section 4, for the groups \<open>gs\<close>.\<close>

definition tax_table :: "income_group list \<Rightarrow> policy \<Rightarrow> tax_row list" where
  "tax_table gs p = map (tax_columns p) (population_table gs)"

subsection \<open>5. UBI allocation\<close>

text \<open>
  \<open>sort_values("avg_income")\<close> is modelled by the stable insertion sort \<open>sort_key\<close>;
  the four incomes of the table are distinct.
\<close>

fun cumsum_from :: "int \<Rightarrow> int list \<Rightarrow> int list" where
  "cumsum_from acc [] = []"
| "cumsum_from acc (x # xs) = (acc + x) # cumsum_from (acc + x) xs"

definition cumsum :: "int list \<Rightarrow> int list" where
  "cumsum xs = cumsum_from 0 xs"

record cum_row = tax_row +
  cum_pop :: int
  cum_pop_share :: rat

definition cum_columns :: "tax_row list \<Rightarrow> cum_row list" where
  "cum_columns df =
     map (\<lambda>(r, c). tax_row.extend r (cum_row.fields c (of_int c / of_int TOTAL_POP)))
       (zip df (cumsum (map group_pop df)))"

text \<open>The data frame once sorted and given its two cumulative columns.\<close>

definition ranked_table :: "income_group list \<Rightarrow> policy \<Rightarrow> cum_row list" where
  "ranked_table gs p = cum_columns (sort_key avg_income (tax_table gs p))"

record ubi_row = cum_row +
  ubi_eligible :: bool

text \<open>
  The \<open>if\<close>/\<open>elif\<close> chain on \<open>ubi_target\<close> has no \<open>else\<close>: for any other string the
  column \<open>ubi_eligible\<close> is never created (\<open>None\<close>).
\<close>

definition assign_ubi_eligible :: "string \<Rightarrow> cum_row list \<Rightarrow> ubi_row list option" where
  "assign_ubi_eligible target df =
     (if target = ''Everyone'' then
        Some (map (\<lambda>r. cum_row.extend r (ubi_row.fields True)) df)
      else if target = ''Bottom 50% income'' then
        Some (map (\<lambda>r. cum_row.extend r (ubi_row.fields (cum_pop_share r \<le> 50 / 100))) df)
      else if target = ''Bottom 20% income'' then
        Some (map (\<lambda>r. cum_row.extend r (ubi_row.fields (cum_pop_share r \<le> 20 / 100))) df)
      else None)"

subsection \<open>6. Disposable income and inequality\<close>

record out_row = ubi_row +
  ubi_per_person :: rat
  disposable_income_per_person :: rat

definition disposable_columns :: "int \<Rightarrow> ubi_row \<Rightarrow> out_row" where
  "disposable_columns ubi_annual_per_person r =
     (let ubi = (if ubi_eligible r then of_int ubi_annual_per_person else 0)
      in ubi_row.extend r
           (out_row.fields ubi
              (of_int (avg_income r) - income_tax_per_person r - vat_tax_per_person r
                 - lux_tax_per_person r + ubi)))"

subsection \<open>The whole script\<close>

datatype py_error = KeyError string | IndexError

record result =
  df :: "out_row list"
  total_tax_revenue :: rat
  ubi_recipients :: int
  ubi_annual_per_person :: int
  total_ubi_cost :: int
  budget_surplus :: rat
  inequality_ratio :: "rat option"

text \<open>
  \<open>run_on gs p\<close> is the script with the table \<open>gs\<close> in the place of \<open>INCOME_GROUPS\<close>.
  A frame built from no rows has no columns, so section 4 already raises \<open>KeyError\<close>
  on \<open>basic_cons\<close>. Reading the missing column \<open>ubi_eligible\<close> raises \<open>KeyError\<close>;
  \<open>df.iloc[0]\<close> on an empty frame raises \<open>IndexError\<close>.
\<close>

definition run_on :: "income_group list \<Rightarrow> policy \<Rightarrow> py_error + result" where
  "run_on gs p =
     (case population_table gs of
        [] \<Rightarrow> Inl (KeyError ''basic_cons'')
      | _ \<Rightarrow>
     (let total_tax_revenue = sum_list (map total_tax_group (tax_table gs p))
      in case assign_ubi_eligible (ubi_target p) (ranked_table gs p) of
           None \<Rightarrow> Inl (KeyError ''ubi_eligible'')
         | Some dfe \<Rightarrow>
             (let ubi_recipients = sum_list (map group_pop (filter ubi_eligible dfe));
                  ubi_annual_per_person = ubi_monthly p * 12;
                  total_ubi_cost = ubi_recipients * ubi_annual_per_person;
                  budget_surplus = total_tax_revenue - of_int total_ubi_cost;
                  df6 = map (disposable_columns ubi_annual_per_person) dfe
              in case df6 of
                   [] \<Rightarrow> Inl IndexError
                 | _ \<Rightarrow>
                     (let low_disp = disposable_income_per_person (hd df6);
                          high_disp = disposable_income_per_person (last df6)
                      in Inr \<lparr>df = df6, total_tax_revenue = total_tax_revenue,
                               ubi_recipients = ubi_recipients,
                               ubi_annual_per_person = ubi_annual_per_person,
                               total_ubi_cost = total_ubi_cost,
                               budget_surplus = budget_surplus,
                               inequality_ratio =
                                 (if low_disp > 0 then Some (high_disp / low_disp)
                                  else None)\<rparr>))))"

definition run :: "policy \<Rightarrow> py_error + result" where
  "run p = run_on INCOME_GROUPS p"

section \<open>Properties of the stages\<close>

lemmas ext_defs = row.defs tax_row.defs cum_row.defs ubi_row.defs out_row.defs

lemmas ref_defs = INCOME_GROUPS_def TOTAL_POP_def UBI_TARGETS_def make_row_def py_int_def
  consumption_shares_def

lemmas stage_defs = tax_table_def ranked_table_def tax_columns_def cum_columns_def cumsum_def
  assign_ubi_eligible_def disposable_columns_def Let_def

subsection \<open>The population loop\<close>

lemma population_loop_eq:
  "population_loop gs (rows, c) =
     (rows @ map make_row gs, c + sum_list (map (\<lambda>g. group_pop (make_row g)) gs))"
  by (induction gs arbitrary: rows c) simp_all

lemma population_table_map: "population_table gs = map make_row gs"
  by (simp add: population_table_def population_loop_eq)

lemma py_int_floor: "0 \<le> x \<Longrightarrow> py_int x = \<lfloor>x\<rfloor>"
  by (simp add: py_int_def)

lemma group_pop_make_row: "group_pop (make_row g) = py_int (of_int TOTAL_POP * pop_share g)"
  by (simp add: make_row_def Let_def split: prod.split)

lemma sum_floor_le:
  fixes f :: "'a \<Rightarrow> rat"
  shows "of_int (sum_list (map (\<lambda>x. \<lfloor>f x\<rfloor>) xs)) \<le> sum_list (map f xs)"
proof (induction xs)
  case Nil
  show ?case by simp
next
  case (Cons x xs)
  have "of_int \<lfloor>f x\<rfloor> \<le> f x" by (rule of_int_floor_le)
  with Cons.IH show ?case by (simp add: add_mono)
qed

subsection \<open>Cumulative columns\<close>

lemma length_cumsum_from: "length (cumsum_from a xs) = length xs"
  by (induction xs arbitrary: a) simp_all

lemma nth_cumsum_from:
  "i < length xs \<Longrightarrow> cumsum_from a xs ! i = a + sum_list (take (Suc i) xs)"
proof (induction xs arbitrary: a i)
  case Nil
  then show ?case by simp
next
  case (Cons x xs)
  show ?case
  proof (cases i)
    case 0
    then show ?thesis by simp
  next
    case (Suc j)
    with Cons.prems have "j < length xs" by simp
    from Cons.IH [OF this, of "a + x"] Suc show ?thesis by simp
  qed
qed

lemma length_cum_columns: "length (cum_columns tab) = length tab"
  by (simp add: cum_columns_def cumsum_def length_cumsum_from)

lemma nth_cum_columns:
  assumes "i < length tab"
  shows "cum_columns tab ! i =
     tax_row.extend (tab ! i)
       (cum_row.fields (sum_list (map group_pop (take (Suc i) tab)))
          (of_int (sum_list (map group_pop (take (Suc i) tab))) / of_int TOTAL_POP))"
  using assms
  by (simp add: cum_columns_def cumsum_def length_cumsum_from nth_cumsum_from take_map)

lemma length_ranked_table: "length (ranked_table gs p) = length gs"
  by (simp add: ranked_table_def length_cum_columns tax_table_def population_table_map)

subsection \<open>Eligibility and the result of a run\<close>

lemma assign_ubi_eligible_valid:
  assumes "target \<in> set UBI_TARGETS"
  shows "assign_ubi_eligible target tab =
     Some (map (\<lambda>r. cum_row.extend r (ubi_row.fields
        (target = ''Everyone'' \<or> target = ''Bottom 50% income'' \<and> cum_pop_share r \<le> 50 / 100
          \<or> target = ''Bottom 20% income'' \<and> cum_pop_share r \<le> 20 / 100))) tab)"
  using assms by (auto simp: assign_ubi_eligible_def UBI_TARGETS_def)

lemma assign_ubi_eligible_invalid:
  "target \<notin> set UBI_TARGETS \<Longrightarrow> assign_ubi_eligible target tab = None"
  by (simp add: assign_ubi_eligible_def UBI_TARGETS_def)

lemma run_on_valid:
  assumes "gs \<noteq> []" and "ubi_target p \<in> set UBI_TARGETS"
  defines "dfe \<equiv> the (assign_ubi_eligible (ubi_target p) (ranked_table gs p))"
  defines "df6 \<equiv> map (disposable_columns (ubi_monthly p * 12)) dfe"
  defines "revenue \<equiv> sum_list (map total_tax_group (tax_table gs p))"
  defines "recipients \<equiv> sum_list (map group_pop (filter ubi_eligible dfe))"
  shows "run_on gs p =
     Inr \<lparr>df = df6, total_tax_revenue = revenue, ubi_recipients = recipients,
          ubi_annual_per_person = ubi_monthly p * 12,
          total_ubi_cost = recipients * (ubi_monthly p * 12),
          budget_surplus = revenue - of_int (recipients * (ubi_monthly p * 12)),
          inequality_ratio =
            (if 0 < disposable_income_per_person (hd df6)
             then Some (disposable_income_per_person (last df6)
                        / disposable_income_per_person (hd df6))
             else None)\<rparr>"
proof -
  have "length df6 = length gs"
    using assms(2)
    by (simp add: df6_def dfe_def assign_ubi_eligible_valid length_ranked_table)
  with assms(1) have "df6 \<noteq> []" by (metis length_0_conv)
  then obtain x xs where "df6 = x # xs" by (cases df6) auto
  moreover obtain y ys where "population_table gs = y # ys"
    using assms(1) by (cases gs) (auto simp: population_table_map)
  moreover have "assign_ubi_eligible (ubi_target p) (ranked_table gs p) = Some dfe"
    using assms(2) by (simp add: dfe_def assign_ubi_eligible_valid)
  ultimately show ?thesis
    unfolding run_on_def Let_def revenue_def recipients_def
    by (simp add: df6_def [symmetric])
qed

lemma run_on_invalid:
  assumes "gs \<noteq> []" and "ubi_target p \<notin> set UBI_TARGETS"
  shows "run_on gs p = Inl (KeyError ''ubi_eligible'')"
proof -
  obtain y ys where "population_table gs = y # ys"
    using assms(1) by (cases gs) (auto simp: population_table_map)
  with assms(2) show ?thesis
    by (simp add: run_on_def assign_ubi_eligible_invalid)
qed

lemma run_on_empty: "run_on [] p = Inl (KeyError ''basic_cons'')"
  by (simp add: run_on_def population_table_map)

lemma nth_eligible:
  assumes "ubi_target p \<in> set UBI_TARGETS" and "i < length gs"
  shows "the (assign_ubi_eligible (ubi_target p) (ranked_table gs p)) ! i =
     cum_row.extend (ranked_table gs p ! i) (ubi_row.fields
        (ubi_target p = ''Everyone''
         \<or> ubi_target p = ''Bottom 50% income'' \<and> cum_pop_share (ranked_table gs p ! i) \<le> 50 / 100
         \<or> ubi_target p = ''Bottom 20% income'' \<and> cum_pop_share (ranked_table gs p ! i) \<le> 20 / 100))"
  using assms by (simp add: assign_ubi_eligible_valid length_ranked_table)

lemma length_eligible:
  assumes "ubi_target p \<in> set UBI_TARGETS"
  shows "length (the (assign_ubi_eligible (ubi_target p) (ranked_table gs p))) = length gs"
  using assms by (simp add: assign_ubi_eligible_valid length_ranked_table)

subsection \<open>Columns carried through the stages\<close>

lemma disposable_columns_sel:
  "tax_row.truncate (disposable_columns a r) = tax_row.truncate r"
  "group_pop (disposable_columns a r) = group_pop r"
  "cum_pop_share (disposable_columns a r) = cum_pop_share r"
  "ubi_eligible (disposable_columns a r) = ubi_eligible r"
  "ubi_per_person (disposable_columns a r) = (if ubi_eligible r then of_int a else 0)"
  "disposable_income_per_person (disposable_columns a r) =
     of_int (avg_income r) - income_tax_per_person r - vat_tax_per_person r
       - lux_tax_per_person r + (if ubi_eligible r then of_int a else 0)"
  by (simp_all add: disposable_columns_def Let_def ext_defs)

lemma eligible_ext_sel:
  "tax_row.truncate (cum_row.extend r (ubi_row.fields b)) = tax_row.truncate r"
  "cum_pop_share (cum_row.extend r (ubi_row.fields b)) = cum_pop_share r"
  "ubi_eligible (cum_row.extend r (ubi_row.fields b)) = b"
  by (simp_all add: ext_defs)

lemma sel_truncate:
  "group_pop (tax_row.truncate r) = group_pop r"
  "avg_income (tax_row.truncate r) = avg_income r"
  "vat_tax_per_person (tax_row.truncate r) = vat_tax_per_person r"
  "lux_tax_per_person (tax_row.truncate r) = lux_tax_per_person r"
  "income_tax_per_person (tax_row.truncate r) = income_tax_per_person r"
  "total_tax_per_person (tax_row.truncate r) = total_tax_per_person r"
  "row.truncate (tax_row.truncate r) = row.truncate r"
  by (simp_all add: ext_defs)

lemma truncate_cum_columns: "map tax_row.truncate (cum_columns tab) = tab"
  by (rule nth_equalityI) (simp_all add: length_cum_columns nth_cum_columns ext_defs)

lemma truncate_tax_columns: "row.truncate (tax_columns p r) = r"
  by (simp add: tax_columns_def Let_def ext_defs)

text \<open>The rows of a successful run, cut back to the tax columns, are the sorted tax table.\<close>

lemma truncate_run_rows:
  assumes "ubi_target p \<in> set UBI_TARGETS"
  shows "map tax_row.truncate
           (map (disposable_columns a) (the (assign_ubi_eligible (ubi_target p) (ranked_table gs p))))
       = sort_key avg_income (tax_table gs p)"
  using assms
  by (simp add: assign_ubi_eligible_valid eligible_ext_sel disposable_columns_sel comp_def
      ranked_table_def truncate_cum_columns)

lemma map_via_truncate:
  assumes "map tax_row.truncate xs = ys" and "\<And>r. f r = g (tax_row.truncate r)"
  shows "map f xs = map g ys"
  using assms by (induction xs arbitrary: ys) auto

lemma sum_list_sort_key:
  fixes f :: "'a \<Rightarrow> rat"
  shows "sum_list (map f (sort_key k xs)) = sum_list (map f xs)"
proof -
  have "sum_list (map f (sort_key k xs)) = sum_mset (image_mset f (mset (sort_key k xs)))"
    by (metis mset_map sum_mset_sum_list)
  also have "\<dots> = sum_mset (image_mset f (mset xs))" by simp
  also have "\<dots> = sum_list (map f xs)" by (metis mset_map sum_mset_sum_list)
  finally show ?thesis .
qed

lemma sum_list_filter_map:
  assumes "\<And>x. P (f x) = Q x" and "\<And>x. g (f x) = h x"
  shows "sum_list (map g (filter P (map f xs))) = sum_list (map h (filter Q xs))"
  using assms by (induction xs) simp_all

text \<open>
  What a successful run returns, for any table: the shape shared by the theorems below.
\<close>

lemma run_on_rows:
  assumes "gs \<noteq> []" and "ubi_target p \<in> set UBI_TARGETS"
  shows "\<exists>res. run_on gs p = Inr res
     \<and> df res = map (disposable_columns (ubi_monthly p * 12))
                    (the (assign_ubi_eligible (ubi_target p) (ranked_table gs p)))
     \<and> length (df res) = length gs
     \<and> map tax_row.truncate (df res) = sort_key avg_income (tax_table gs p)
     \<and> total_tax_revenue res = sum_list (map total_tax_group (tax_table gs p))
     \<and> ubi_recipients res = sum_list (map group_pop (filter ubi_eligible (df res)))
     \<and> total_ubi_cost res = ubi_recipients res * (ubi_monthly p * 12)
     \<and> budget_surplus res = total_tax_revenue res - of_int (total_ubi_cost res)
     \<and> inequality_ratio res =
         (if 0 < disposable_income_per_person (hd (df res))
          then Some (disposable_income_per_person (last (df res))
                     / disposable_income_per_person (hd (df res)))
          else None)"
proof -
  let ?dfe = "the (assign_ubi_eligible (ubi_target p) (ranked_table gs p))"
  let ?df6 = "map (disposable_columns (ubi_monthly p * 12)) ?dfe"
  have "sum_list (map group_pop (filter ubi_eligible ?df6))
      = sum_list (map group_pop (filter ubi_eligible ?dfe))"
    by (rule sum_list_filter_map)
      (simp_all add: disposable_columns_sel)
  moreover have "length ?df6 = length gs"
    using assms(2) by (simp add: length_eligible)
  moreover note truncate_run_rows [OF assms(2), of "ubi_monthly p * 12" gs]
  ultimately show ?thesis
    by (simp add: run_on_valid [OF assms])
qed

lemma disposable_columns_identity:
  assumes "r = disposable_columns a x"
  shows "disposable_income_per_person r =
     of_int (avg_income r) - income_tax_per_person r - vat_tax_per_person r
       - lux_tax_per_person r + ubi_per_person r"
    and "ubi_per_person r = (if ubi_eligible r then of_int a else 0)"
  using assms by (simp_all add: disposable_columns_def Let_def ext_defs)

lemma tax_columns_sel:
  "vat_tax_per_person (tax_columns p r) = vat_rate p * (basic_cons r + luxury_cons r)"
  "lux_tax_per_person (tax_columns p r) = luxury_tax_rate p * luxury_cons r"
  "income_tax_per_person (tax_columns p r) = income_tax_rate p * of_int (avg_income r)"
  "total_tax_per_person (tax_columns p r) =
     vat_rate p * (basic_cons r + luxury_cons r) + luxury_tax_rate p * luxury_cons r
       + income_tax_rate p * of_int (avg_income r)"
  "total_tax_group (tax_columns p r) =
     total_tax_per_person (tax_columns p r) * of_int (group_pop (tax_columns p r))"
  by (simp_all add: tax_columns_def Let_def ext_defs)

lemma sorted_hd_last:
  fixes xs :: "int list"
  assumes "sorted xs" and "i < length xs"
  shows "hd xs \<le> xs ! i \<and> xs ! i \<le> last xs"
proof -
  from assms(2) have ne: "xs \<noteq> []" by auto
  have "xs ! 0 \<le> xs ! i"
    using assms by (intro sorted_nth_mono) simp_all
  moreover have "xs ! i \<le> xs ! (length xs - 1)"
    using assms by (intro sorted_nth_mono) simp_all
  ultimately show ?thesis
    using ne by (simp add: hd_conv_nth last_conv_nth)
qed

subsection \<open>The reference table\<close>

lemma INCOME_GROUPS_nonempty: "INCOME_GROUPS \<noteq> []"
  by (simp add: INCOME_GROUPS_def)

lemma run_returns:
  assumes "ubi_target p \<in> set UBI_TARGETS"
  shows "\<exists>res. run p = Inr res"
  using run_on_rows [OF INCOME_GROUPS_nonempty assms] unfolding run_def by blast

text \<open>The revenue of the reference table is linear in the three rates.\<close>

lemma run_revenue:
  assumes "run p = Inr res"
  shows "total_tax_revenue res =
     4330000000 * vat_rate p + 439400000 * luxury_tax_rate p + 5800000000 * income_tax_rate p"
  using assms
  by (auto simp: run_def run_on_def population_table_map ref_defs stage_defs ext_defs
      split: if_splits)

text \<open>The recipients of the reference table, target by target.\<close>

lemma run_recipients:
  assumes "run p = Inr res"
  shows "map group (filter ubi_eligible (df res)) =
           (if ubi_target p = ''Everyone''
            then [''Low'', ''Lower-Middle'', ''Upper-Middle'', ''High'']
            else if ubi_target p = ''Bottom 50% income'' then [''Low''] else [])
       \<and> ubi_recipients res =
           (if ubi_target p = ''Everyone'' then 100000
            else if ubi_target p = ''Bottom 50% income'' then 30000 else 0)
       \<and> ubi_annual_per_person res = ubi_monthly p * 12
       \<and> total_ubi_cost res = ubi_recipients res * (ubi_monthly p * 12)"
  using assms
  by (auto simp: run_def run_on_def population_table_map ref_defs stage_defs ext_defs
      split: if_splits)

lemma run_shares:
  assumes "run p = Inr res"
  shows "map group (df res) = [''Low'', ''Lower-Middle'', ''Upper-Middle'', ''High'']
       \<and> map group_pop (df res) = [30000, 40000, 20000, 10000]
       \<and> map cum_pop_share (df res) = [30 / 100, 70 / 100, 90 / 100, 100 / 100]"
  using assms
  by (auto simp: run_def run_on_def population_table_map ref_defs stage_defs ext_defs
      split: if_splits)

section \<open>The claims\<close>

text \<open>
  C1. For any non-empty table and any of the three targets the run succeeds; its rows
  are the table's brackets in ascending order of \<open>avg_income\<close>; each row's
  \<open>cum_pop_share\<close> is the sum of \<open>group_pop\<close> over the rows up to and including it,
  divided by \<open>TOTAL_POP\<close>; the row is eligible exactly when the target is Everyone, or
  Bottom 50% and that share is at most 0.50, or Bottom 20% and that share is at most 0.20.
  Eligibility is all or nothing: an eligible row receives the whole annual amount and
  counts its whole \<open>group_pop\<close> among the recipients, any other row receives 0 and
  counts nobody.
\<close>

theorem ubi_eligible_whole_bracket:
  assumes "gs \<noteq> []" and "ubi_target p \<in> set UBI_TARGETS"
  shows "\<exists>res. run_on gs p = Inr res
     \<and> sorted (map avg_income (df res))
     \<and> mset (map row.truncate (df res)) = mset (population_table gs)
     \<and> (\<forall>i<length (df res).
          cum_pop_share (df res ! i)
            = of_int (sum_list (map group_pop (take (Suc i) (df res)))) / of_int TOTAL_POP
          \<and> ubi_eligible (df res ! i)
            = (ubi_target p = ''Everyone''
               \<or> ubi_target p = ''Bottom 50% income'' \<and> cum_pop_share (df res ! i) \<le> 50 / 100
               \<or> ubi_target p = ''Bottom 20% income'' \<and> cum_pop_share (df res ! i) \<le> 20 / 100)
          \<and> ubi_per_person (df res ! i)
            = (if ubi_eligible (df res ! i) then of_int (ubi_monthly p * 12) else 0))
     \<and> ubi_recipients res = sum_list (map group_pop (filter ubi_eligible (df res)))"
proof -
  define a where "a = ubi_monthly p * 12"
  define srt where "srt = sort_key avg_income (tax_table gs p)"
  define dfe where "dfe = the (assign_ubi_eligible (ubi_target p) (ranked_table gs p))"
  from run_on_rows [OF assms] obtain res where
    run: "run_on gs p = Inr res"
    and dfr: "df res = map (disposable_columns a) dfe"
    and len: "length (df res) = length gs"
    and trunc: "map tax_row.truncate (df res) = srt"
    and recip: "ubi_recipients res = sum_list (map group_pop (filter ubi_eligible (df res)))"
    unfolding a_def srt_def dfe_def by blast
  have len_srt: "length srt = length gs"
    by (simp add: srt_def tax_table_def population_table_map)
  have pops: "map group_pop (df res) = map group_pop srt"
    using trunc by (rule map_via_truncate) (simp add: sel_truncate)
  have "map avg_income (df res) = map avg_income srt"
    using trunc by (rule map_via_truncate) (simp add: sel_truncate)
  then have srtd: "sorted (map avg_income (df res))"
    by (simp only: srt_def sorted_sort_key)
  have "map row.truncate (df res) = map row.truncate srt"
    using trunc by (rule map_via_truncate) (simp add: sel_truncate)
  then have "mset (map row.truncate (df res)) = image_mset row.truncate (mset (tax_table gs p))"
    by (simp add: srt_def)
  also have "\<dots> = mset (map (\<lambda>r. row.truncate (tax_columns p r)) (population_table gs))"
    by (simp add: tax_table_def image_mset.compositionality comp_def)
  finally have perm: "mset (map row.truncate (df res)) = mset (population_table gs)"
    by (simp add: truncate_tax_columns)
  have rows: "cum_pop_share (df res ! i)
        = of_int (sum_list (map group_pop (take (Suc i) (df res)))) / of_int TOTAL_POP
      \<and> ubi_eligible (df res ! i)
        = (ubi_target p = ''Everyone''
           \<or> ubi_target p = ''Bottom 50% income'' \<and> cum_pop_share (df res ! i) \<le> 50 / 100
           \<or> ubi_target p = ''Bottom 20% income'' \<and> cum_pop_share (df res ! i) \<le> 20 / 100)
      \<and> ubi_per_person (df res ! i) = (if ubi_eligible (df res ! i) then of_int a else 0)"
    if "i < length (df res)" for i
  proof -
    from that len have i: "i < length gs" by simp
    have dfe_i: "dfe ! i = cum_row.extend (ranked_table gs p ! i) (ubi_row.fields
        (ubi_target p = ''Everyone''
         \<or> ubi_target p = ''Bottom 50% income'' \<and> cum_pop_share (ranked_table gs p ! i) \<le> 50 / 100
         \<or> ubi_target p = ''Bottom 20% income'' \<and> cum_pop_share (ranked_table gs p ! i) \<le> 20 / 100))"
      unfolding dfe_def by (rule nth_eligible [OF assms(2) i])
    have df6_i: "df res ! i = disposable_columns a (dfe ! i)"
      using i assms(2) by (simp add: dfr dfe_def length_eligible)
    have "sum_list (map group_pop (take (Suc i) (df res)))
        = sum_list (map group_pop (take (Suc i) srt))"
      using pops by (metis take_map)
    moreover have "cum_pop_share (ranked_table gs p ! i)
        = of_int (sum_list (map group_pop (take (Suc i) srt))) / of_int TOTAL_POP"
      using i len_srt
      by (simp add: ranked_table_def srt_def [symmetric] nth_cum_columns ext_defs)
    ultimately show ?thesis
      by (simp add: df6_i dfe_i disposable_columns_sel eligible_ext_sel)
  qed
  from run srtd perm rows recip show ?thesis
    by (auto simp: a_def)
qed

theorem ubi_eligible_whole_bracket_witness:
  "\<exists>res. run (default_policy\<lparr>ubi_target := ''Bottom 50% income''\<rparr>) = Inr res
     \<and> map group (df res) = [''Low'', ''Lower-Middle'', ''Upper-Middle'', ''High'']
     \<and> map cum_pop_share (df res) = [30 / 100, 70 / 100, 90 / 100, 100 / 100]
     \<and> map ubi_eligible (df res) = [True, False, False, False]
     \<and> map ubi_per_person (df res) = [9600, 0, 0, 0]
     \<and> ubi_recipients res = 30000"
proof -
  let ?p = "default_policy\<lparr>ubi_target := ''Bottom 50% income''\<rparr>"
  have ne: "INCOME_GROUPS \<noteq> []"
    by (simp add: INCOME_GROUPS_def)
  have tg: "ubi_target ?p \<in> set UBI_TARGETS"
    by (simp add: UBI_TARGETS_def)
  from ubi_eligible_whole_bracket [OF ne tg] obtain res where
    run: "run_on INCOME_GROUPS ?p = Inr res" by blast
  have "run_on INCOME_GROUPS ?p = Inr res \<Longrightarrow>
      map group (df res) = [''Low'', ''Lower-Middle'', ''Upper-Middle'', ''High'']
     \<and> map cum_pop_share (df res) = [30 / 100, 70 / 100, 90 / 100, 100 / 100]
     \<and> map ubi_eligible (df res) = [True, False, False, False]
     \<and> map ubi_per_person (df res) = [9600, 0, 0, 0]
     \<and> ubi_recipients res = 30000"
    by (auto simp: run_on_def population_table_map default_policy_def ref_defs stage_defs ext_defs)
  with run show ?thesis by (simp add: run_def)
qed

text \<open>
  C3. For any non-empty table and any of the three targets the run succeeds with rows
  whose first has the lowest and whose last has the highest \<open>avg_income\<close>. If the first
  row's disposable income is strictly positive, \<open>inequality_ratio\<close> is the last row's
  disposable income divided by the first row's; otherwise it is \<open>np.nan\<close> (\<open>None\<close>).
  No error is raised either way.
\<close>

theorem inequality_ratio_or_nan:
  assumes "gs \<noteq> []" and "ubi_target p \<in> set UBI_TARGETS"
  shows "\<exists>res. run_on gs p = Inr res \<and> df res \<noteq> []
     \<and> (\<forall>r\<in>set (df res). avg_income (hd (df res)) \<le> avg_income r
                          \<and> avg_income r \<le> avg_income (last (df res)))
     \<and> (0 < disposable_income_per_person (hd (df res)) \<longrightarrow>
          inequality_ratio res = Some (disposable_income_per_person (last (df res))
                                       / disposable_income_per_person (hd (df res))))
     \<and> (disposable_income_per_person (hd (df res)) \<le> 0 \<longrightarrow> inequality_ratio res = None)"
proof -
  from run_on_rows [OF assms] obtain res where
    run: "run_on gs p = Inr res"
    and len: "length (df res) = length gs"
    and trunc: "map tax_row.truncate (df res) = sort_key avg_income (tax_table gs p)"
    and ratio: "inequality_ratio res =
         (if 0 < disposable_income_per_person (hd (df res))
          then Some (disposable_income_per_person (last (df res))
                     / disposable_income_per_person (hd (df res)))
          else None)"
    by blast
  from len assms(1) have ne: "df res \<noteq> []" by auto
  have "map avg_income (df res) = map avg_income (sort_key avg_income (tax_table gs p))"
    using trunc by (rule map_via_truncate) (simp add: sel_truncate)
  then have srtd: "sorted (map avg_income (df res))"
    by (simp only: sorted_sort_key)
  have ext: "avg_income (hd (df res)) \<le> avg_income r \<and> avg_income r \<le> avg_income (last (df res))"
    if "r \<in> set (df res)" for r
  proof -
    from that obtain i where i: "i < length (df res)" and r: "df res ! i = r"
      by (auto simp: in_set_conv_nth)
    from sorted_hd_last [OF srtd, of i] i r ne show ?thesis
      by (simp add: hd_map last_map)
  qed
  from run ne ext ratio show ?thesis by auto
qed

theorem inequality_ratio_or_nan_witness:
  "(\<exists>res. run default_policy = Inr res
      \<and> disposable_income_per_person (hd (df res)) = 24662
      \<and> disposable_income_per_person (last (df res)) = 165200
      \<and> inequality_ratio res = Some (165200 / 24662))
   \<and> (\<exists>res. run (default_policy\<lparr>income_tax_rate := 100 / 100\<rparr>) = Inr res
      \<and> disposable_income_per_person (hd (df res)) = 7662
      \<and> inequality_ratio res = Some (- 4800 / 7662))
   \<and> (\<exists>res. run (default_policy\<lparr>income_tax_rate := 100 / 100, ubi_monthly := 0\<rparr>) = Inr res
      \<and> disposable_income_per_person (hd (df res)) = - 1938
      \<and> inequality_ratio res = None)"
proof -
  let ?p = "default_policy"
  let ?q = "default_policy\<lparr>income_tax_rate := 100 / 100\<rparr>"
  let ?z = "default_policy\<lparr>income_tax_rate := 100 / 100, ubi_monthly := 0\<rparr>"
  have ne: "INCOME_GROUPS \<noteq> []"
    by (simp add: INCOME_GROUPS_def)
  have tp: "ubi_target ?p \<in> set UBI_TARGETS" and tq: "ubi_target ?q \<in> set UBI_TARGETS"
    and tz: "ubi_target ?z \<in> set UBI_TARGETS"
    by (simp_all add: UBI_TARGETS_def default_policy_def)
  have hp: "map disposable_income_per_person (df res) = [24662, 40030, 71000, 165200]"
    if "run_on INCOME_GROUPS ?p = Inr res" for res
    using that
    by (auto simp: run_on_def population_table_map default_policy_def ref_defs stage_defs ext_defs)
  have hq: "map disposable_income_per_person (df res) = [7662, 6030, 3000, - 4800]"
    if "run_on INCOME_GROUPS ?q = Inr res" for res
    using that
    by (auto simp: run_on_def population_table_map default_policy_def ref_defs stage_defs ext_defs)
  have hz: "map disposable_income_per_person (df res) = [- 1938, - 3570, - 6600, - 14400]"
    if "run_on INCOME_GROUPS ?z = Inr res" for res
    using that
    by (auto simp: run_on_def population_table_map default_policy_def ref_defs stage_defs ext_defs)
  from inequality_ratio_or_nan [OF ne tp] obtain rp where
    "run_on INCOME_GROUPS ?p = Inr rp" "df rp \<noteq> []"
    "0 < disposable_income_per_person (hd (df rp)) \<longrightarrow>
       inequality_ratio rp = Some (disposable_income_per_person (last (df rp))
                                    / disposable_income_per_person (hd (df rp)))"
    by blast
  with hp [of rp] have a: "\<exists>res. run default_policy = Inr res
      \<and> disposable_income_per_person (hd (df res)) = 24662
      \<and> disposable_income_per_person (last (df res)) = 165200
      \<and> inequality_ratio res = Some (165200 / 24662)"
    by (cases "df rp") (auto simp: run_def)
  from inequality_ratio_or_nan [OF ne tq] obtain rq where
    "run_on INCOME_GROUPS ?q = Inr rq" "df rq \<noteq> []"
    "0 < disposable_income_per_person (hd (df rq)) \<longrightarrow>
       inequality_ratio rq = Some (disposable_income_per_person (last (df rq))
                                    / disposable_income_per_person (hd (df rq)))"
    by blast
  with hq [of rq] have b: "\<exists>res. run ?q = Inr res
      \<and> disposable_income_per_person (hd (df res)) = 7662
      \<and> inequality_ratio res = Some (- 4800 / 7662)"
    by (cases "df rq") (auto simp: run_def)
  from inequality_ratio_or_nan [OF ne tz] obtain rz where
    "run_on INCOME_GROUPS ?z = Inr rz" "df rz \<noteq> []"
    "disposable_income_per_person (hd (df rz)) \<le> 0 \<longrightarrow> inequality_ratio rz = None"
    by blast
  with hz [of rz] have c: "\<exists>res. run ?z = Inr res
      \<and> disposable_income_per_person (hd (df res)) = - 1938
      \<and> inequality_ratio res = None"
    by (cases "df rz") (auto simp: run_def)
  from a b c show ?thesis by blast
qed

text \<open>
  C4. For any non-empty table and any of the three targets, \<open>budget_surplus\<close> is
  \<open>total_tax_revenue\<close> minus \<open>total_ubi_cost\<close>, \<open>total_tax_revenue\<close> is the sum over
  the rows of \<open>total_tax_per_person\<close> times \<open>group_pop\<close>, and \<open>total_ubi_cost\<close> is
  \<open>ubi_recipients\<close> (the \<open>group_pop\<close> of the eligible rows, added up) times 12 times
  \<open>ubi_monthly\<close>.
\<close>

theorem budget_identity:
  assumes "gs \<noteq> []" and "ubi_target p \<in> set UBI_TARGETS"
  shows "\<exists>res. run_on gs p = Inr res
     \<and> budget_surplus res = total_tax_revenue res - of_int (total_ubi_cost res)
     \<and> total_tax_revenue res
         = sum_list (map (\<lambda>r. total_tax_per_person r * of_int (group_pop r)) (df res))
     \<and> ubi_recipients res = sum_list (map group_pop (filter ubi_eligible (df res)))
     \<and> total_ubi_cost res = ubi_recipients res * 12 * ubi_monthly p"
proof -
  let ?f = "\<lambda>r. total_tax_per_person r * (of_int (group_pop r) :: rat)"
  from run_on_rows [OF assms] obtain res where
    run: "run_on gs p = Inr res"
    and trunc: "map tax_row.truncate (df res) = sort_key avg_income (tax_table gs p)"
    and rev: "total_tax_revenue res = sum_list (map total_tax_group (tax_table gs p))"
    and recip: "ubi_recipients res = sum_list (map group_pop (filter ubi_eligible (df res)))"
    and cost: "total_ubi_cost res = ubi_recipients res * (ubi_monthly p * 12)"
    and bal: "budget_surplus res = total_tax_revenue res - of_int (total_ubi_cost res)"
    by blast
  have "map total_tax_group (tax_table gs p) = map ?f (tax_table gs p)"
    by (simp add: tax_table_def tax_columns_sel(5))
  then have "total_tax_revenue res = sum_list (map ?f (tax_table gs p))"
    using rev by (simp only:)
  also have "\<dots> = sum_list (map ?f (sort_key avg_income (tax_table gs p)))"
    by (rule sum_list_sort_key [symmetric])
  also have "map ?f (sort_key avg_income (tax_table gs p)) = map ?f (df res)"
    by (rule map_via_truncate [OF trunc, symmetric]) (simp add: sel_truncate)
  finally have "total_tax_revenue res = sum_list (map ?f (df res))" .
  moreover from cost have "total_ubi_cost res = ubi_recipients res * 12 * ubi_monthly p"
    by (simp add: mult.assoc mult.commute)
  ultimately show ?thesis
    using run recip bal by blast
qed

theorem budget_identity_witness:
  "\<exists>res. run default_policy = Inr res
     \<and> total_tax_revenue res = 1346940000 \<and> ubi_recipients res = 100000
     \<and> total_ubi_cost res = 960000000 \<and> budget_surplus res = 386940000"
proof -
  have ne: "INCOME_GROUPS \<noteq> []"
    by (simp add: INCOME_GROUPS_def)
  have tg: "ubi_target default_policy \<in> set UBI_TARGETS"
    by (simp add: UBI_TARGETS_def default_policy_def)
  from budget_identity [OF ne tg] obtain res where
    run: "run_on INCOME_GROUPS default_policy = Inr res"
    and bal: "budget_surplus res = total_tax_revenue res - of_int (total_ubi_cost res)"
    and cost: "total_ubi_cost res = ubi_recipients res * 12 * ubi_monthly default_policy"
    by blast
  have "total_tax_revenue r = 1346940000 \<and> ubi_recipients r = 100000"
    if "run_on INCOME_GROUPS default_policy = Inr r" for r
    using that
    by (auto simp: run_on_def population_table_map default_policy_def ref_defs stage_defs ext_defs)
  with run have "total_tax_revenue res = 1346940000" and "ubi_recipients res = 100000"
    by simp_all
  with run bal cost show ?thesis
    by (auto simp: run_def default_policy_def)
qed

text \<open>
  C5. With the reference table, whose rows in ascending income order hold the shares
  0.30, 0.40, 0.20 and 0.10 of \<open>TOTAL_POP\<close>, the target Bottom 20% makes no row
  eligible: the first row's \<open>cum_pop_share\<close> is already 0.30. So whatever \<open>ubi_monthly\<close>
  is, \<open>ubi_recipients\<close> and \<open>total_ubi_cost\<close> are 0.
\<close>

theorem bottom_20_no_recipients:
  assumes "ubi_target p = ''Bottom 20% income''"
  shows "\<exists>res. run p = Inr res
     \<and> map (\<lambda>r. of_int (group_pop r) / of_int TOTAL_POP) (df res)
         = [30 / 100, 40 / 100, 20 / 100, 10 / 100 :: rat]
     \<and> cum_pop_share (hd (df res)) = 30 / 100
     \<and> (\<forall>r\<in>set (df res). \<not> ubi_eligible r)
     \<and> ubi_recipients res = 0 \<and> total_ubi_cost res = 0"
proof -
  from assms have "ubi_target p \<in> set UBI_TARGETS"
    by (simp add: UBI_TARGETS_def)
  then obtain res where run: "run p = Inr res"
    using run_returns by blast
  from run_recipients [OF run] assms
  have none: "filter ubi_eligible (df res) = []"
    and zero: "ubi_recipients res = 0" "total_ubi_cost res = 0"
    by simp_all
  from none have no: "\<forall>r\<in>set (df res). \<not> ubi_eligible r"
    by (simp add: filter_empty_conv)
  from run_shares [OF run]
  have pops: "map group_pop (df res) = [30000, 40000, 20000, 10000]"
    and cum: "map cum_pop_share (df res) = [30 / 100, 70 / 100, 90 / 100, 100 / 100]"
    by simp_all
  have "map (\<lambda>r. of_int (group_pop r) / of_int TOTAL_POP) (df res)
      = map (\<lambda>n. of_int n / (of_int TOTAL_POP :: rat)) (map group_pop (df res))"
    by simp
  also have "\<dots> = [30 / 100, 40 / 100, 20 / 100, 10 / 100]"
    by (simp only: pops) (simp add: TOTAL_POP_def)
  finally have shares: "map (\<lambda>r. of_int (group_pop r) / of_int TOTAL_POP) (df res)
      = [30 / 100, 40 / 100, 20 / 100, 10 / 100 :: rat]" .
  from cum have "cum_pop_share (hd (df res)) = 30 / 100"
    by (cases "df res") auto
  with run shares no zero
  have "run p = Inr res
     \<and> map (\<lambda>r. of_int (group_pop r) / of_int TOTAL_POP) (df res)
         = [30 / 100, 40 / 100, 20 / 100, 10 / 100 :: rat]
     \<and> cum_pop_share (hd (df res)) = 30 / 100
     \<and> (\<forall>r\<in>set (df res). \<not> ubi_eligible r)
     \<and> ubi_recipients res = 0 \<and> total_ubi_cost res = 0"
    by (intro conjI)
  then show ?thesis ..
qed

theorem bottom_20_no_recipients_witness:
  "\<exists>res. run (default_policy\<lparr>ubi_monthly := 2000, ubi_target := ''Bottom 20% income''\<rparr>) = Inr res
     \<and> length (df res) = 4 \<and> filter ubi_eligible (df res) = []
     \<and> ubi_recipients res = 0 \<and> total_ubi_cost res = 0"
proof -
  let ?p = "default_policy\<lparr>ubi_monthly := 2000, ubi_target := ''Bottom 20% income''\<rparr>"
  have "ubi_target ?p = ''Bottom 20% income''" by simp
  from bottom_20_no_recipients [OF this] obtain res where
    run: "run ?p = Inr res" and no: "\<forall>r\<in>set (df res). \<not> ubi_eligible r"
    and zero: "ubi_recipients res = 0" "total_ubi_cost res = 0"
    by blast
  from run_shares [OF run] have "length (map group (df res)) = 4"
    by simp
  then have "length (df res) = 4" by simp
  moreover from no have "filter ubi_eligible (df res) = []"
    by (simp add: filter_empty_conv)
  ultimately have "run ?p = Inr res
     \<and> length (df res) = 4 \<and> filter ubi_eligible (df res) = []
     \<and> ubi_recipients res = 0 \<and> total_ubi_cost res = 0"
    using run zero by (intro conjI)
  then show ?thesis ..
qed

text \<open>
  C6. With the reference table and any of the three targets, raising \<open>vat_rate\<close>, or
  \<open>luxury_tax_rate\<close>, or \<open>income_tax_rate\<close>, the other levers unchanged, never lowers
  \<open>total_tax_revenue\<close>.
\<close>

theorem revenue_monotone:
  assumes "ubi_target p \<in> set UBI_TARGETS"
    and "vat_rate p \<le> v" and "luxury_tax_rate p \<le> l" and "income_tax_rate p \<le> t"
  shows "\<exists>res rv rl rt. run p = Inr res
     \<and> run (p\<lparr>vat_rate := v\<rparr>) = Inr rv \<and> total_tax_revenue res \<le> total_tax_revenue rv
     \<and> run (p\<lparr>luxury_tax_rate := l\<rparr>) = Inr rl \<and> total_tax_revenue res \<le> total_tax_revenue rl
     \<and> run (p\<lparr>income_tax_rate := t\<rparr>) = Inr rt \<and> total_tax_revenue res \<le> total_tax_revenue rt"
proof -
  from assms(1) obtain res where r: "run p = Inr res"
    using run_returns by blast
  from assms(1) obtain rv where rv: "run (p\<lparr>vat_rate := v\<rparr>) = Inr rv"
    using run_returns [of "p\<lparr>vat_rate := v\<rparr>"] by auto
  from assms(1) obtain rl where rl: "run (p\<lparr>luxury_tax_rate := l\<rparr>) = Inr rl"
    using run_returns [of "p\<lparr>luxury_tax_rate := l\<rparr>"] by auto
  from assms(1) obtain rt where rt: "run (p\<lparr>income_tax_rate := t\<rparr>) = Inr rt"
    using run_returns [of "p\<lparr>income_tax_rate := t\<rparr>"] by auto
  have "total_tax_revenue res \<le> total_tax_revenue rv"
    using assms(2) by (simp add: run_revenue [OF r] run_revenue [OF rv])
  moreover have "total_tax_revenue res \<le> total_tax_revenue rl"
    using assms(3) by (simp add: run_revenue [OF r] run_revenue [OF rl])
  moreover have "total_tax_revenue res \<le> total_tax_revenue rt"
    using assms(4) by (simp add: run_revenue [OF r] run_revenue [OF rt])
  ultimately show ?thesis
    using r rv rl rt by blast
qed

theorem revenue_monotone_witness:
  "\<exists>res rv rl rt. run default_policy = Inr res \<and> total_tax_revenue res = 1346940000
     \<and> run (default_policy\<lparr>vat_rate := 30 / 100\<rparr>) = Inr rv
     \<and> total_tax_revenue rv = 2212940000
     \<and> run (default_policy\<lparr>luxury_tax_rate := 40 / 100\<rparr>) = Inr rl
     \<and> total_tax_revenue rl = 1478760000
     \<and> run (default_policy\<lparr>income_tax_rate := 40 / 100\<rparr>) = Inr rt
     \<and> total_tax_revenue rt = 2796940000"
proof -
  have tg: "ubi_target default_policy \<in> set UBI_TARGETS"
    by (simp add: default_policy_def UBI_TARGETS_def)
  have "vat_rate default_policy \<le> 30 / 100" "luxury_tax_rate default_policy \<le> 40 / 100"
    "income_tax_rate default_policy \<le> 40 / 100"
    by (simp_all add: default_policy_def)
  from revenue_monotone [OF tg this] obtain res rv rl rt where
    r: "run default_policy = Inr res"
    and rv: "run (default_policy\<lparr>vat_rate := 30 / 100\<rparr>) = Inr rv"
    and rl: "run (default_policy\<lparr>luxury_tax_rate := 40 / 100\<rparr>) = Inr rl"
    and rt: "run (default_policy\<lparr>income_tax_rate := 40 / 100\<rparr>) = Inr rt"
    by blast
  have "total_tax_revenue res = 1346940000" "total_tax_revenue rv = 2212940000"
    "total_tax_revenue rl = 1478760000" "total_tax_revenue rt = 2796940000"
    by (simp_all add: run_revenue [OF r] run_revenue [OF rv] run_revenue [OF rl]
        run_revenue [OF rt] default_policy_def)
  with r rv rl rt show ?thesis by blast
qed

text \<open>
  C7. With the reference table: raising \<open>ubi_monthly\<close>, the other levers unchanged,
  never lowers \<open>total_ubi_cost\<close>; and going from Bottom 20% to Bottom 50% to Everyone,
  the other levers unchanged, the eligible groups only grow and \<open>ubi_recipients\<close> never
  falls.
\<close>

theorem ubi_cost_monotone:
  assumes "ubi_target p \<in> set UBI_TARGETS" and "ubi_monthly p \<le> m"
  shows "\<exists>res rm r20 r50 rall. run p = Inr res
     \<and> run (p\<lparr>ubi_monthly := m\<rparr>) = Inr rm \<and> total_ubi_cost res \<le> total_ubi_cost rm
     \<and> run (p\<lparr>ubi_target := ''Bottom 20% income''\<rparr>) = Inr r20
     \<and> run (p\<lparr>ubi_target := ''Bottom 50% income''\<rparr>) = Inr r50
     \<and> run (p\<lparr>ubi_target := ''Everyone''\<rparr>) = Inr rall
     \<and> set (map group (filter ubi_eligible (df r20)))
         \<subseteq> set (map group (filter ubi_eligible (df r50)))
     \<and> set (map group (filter ubi_eligible (df r50)))
         \<subseteq> set (map group (filter ubi_eligible (df rall)))
     \<and> ubi_recipients r20 \<le> ubi_recipients r50
     \<and> ubi_recipients r50 \<le> ubi_recipients rall"
proof -
  from assms(1) obtain res where r: "run p = Inr res"
    using run_returns by blast
  from assms(1) obtain rm where rm: "run (p\<lparr>ubi_monthly := m\<rparr>) = Inr rm"
    using run_returns [of "p\<lparr>ubi_monthly := m\<rparr>"] by auto
  obtain r20 where r20: "run (p\<lparr>ubi_target := ''Bottom 20% income''\<rparr>) = Inr r20"
    using run_returns [of "p\<lparr>ubi_target := ''Bottom 20% income''\<rparr>"]
    by (auto simp: UBI_TARGETS_def)
  obtain r50 where r50: "run (p\<lparr>ubi_target := ''Bottom 50% income''\<rparr>) = Inr r50"
    using run_returns [of "p\<lparr>ubi_target := ''Bottom 50% income''\<rparr>"]
    by (auto simp: UBI_TARGETS_def)
  obtain rall where rall: "run (p\<lparr>ubi_target := ''Everyone''\<rparr>) = Inr rall"
    using run_returns [of "p\<lparr>ubi_target := ''Everyone''\<rparr>"]
    by (auto simp: UBI_TARGETS_def)
  have same: "ubi_recipients rm = ubi_recipients res" and nonneg: "0 \<le> ubi_recipients res"
    using run_recipients [OF r] run_recipients [OF rm] by simp_all
  have "ubi_recipients res * (ubi_monthly p * 12) \<le> ubi_recipients res * (m * 12)"
    using assms(2) nonneg by (intro mult_left_mono) simp_all
  then have cost: "total_ubi_cost res \<le> total_ubi_cost rm"
    using run_recipients [OF r] run_recipients [OF rm] same by simp
  have nest: "set (map group (filter ubi_eligible (df r20)))
         \<subseteq> set (map group (filter ubi_eligible (df r50)))"
    "set (map group (filter ubi_eligible (df r50)))
         \<subseteq> set (map group (filter ubi_eligible (df rall)))"
    and recs: "ubi_recipients r20 \<le> ubi_recipients r50" "ubi_recipients r50 \<le> ubi_recipients rall"
    using run_recipients [OF r20] run_recipients [OF r50] run_recipients [OF rall]
    by simp_all
  from r rm cost r20 r50 rall nest recs show ?thesis by blast
qed

theorem ubi_cost_monotone_witness:
  "\<exists>res rm r20 r50 rall. run default_policy = Inr res \<and> total_ubi_cost res = 960000000
     \<and> run (default_policy\<lparr>ubi_monthly := 2000\<rparr>) = Inr rm \<and> total_ubi_cost rm = 2400000000
     \<and> run (default_policy\<lparr>ubi_target := ''Bottom 20% income''\<rparr>) = Inr r20
     \<and> ubi_recipients r20 = 0
     \<and> run (default_policy\<lparr>ubi_target := ''Bottom 50% income''\<rparr>) = Inr r50
     \<and> ubi_recipients r50 = 30000
     \<and> run (default_policy\<lparr>ubi_target := ''Everyone''\<rparr>) = Inr rall
     \<and> ubi_recipients rall = 100000"
proof -
  have tg: "ubi_target default_policy \<in> set UBI_TARGETS"
    by (simp add: default_policy_def UBI_TARGETS_def)
  have le: "ubi_monthly default_policy \<le> 2000"
    by (simp add: default_policy_def)
  from ubi_cost_monotone [OF tg le] obtain res rm r20 r50 rall where
    r: "run default_policy = Inr res"
    and rm: "run (default_policy\<lparr>ubi_monthly := 2000\<rparr>) = Inr rm"
    and r20: "run (default_policy\<lparr>ubi_target := ''Bottom 20% income''\<rparr>) = Inr r20"
    and r50: "run (default_policy\<lparr>ubi_target := ''Bottom 50% income''\<rparr>) = Inr r50"
    and rall: "run (default_policy\<lparr>ubi_target := ''Everyone''\<rparr>) = Inr rall"
    by blast
  have "total_ubi_cost res = 960000000" "total_ubi_cost rm = 2400000000"
    using run_recipients [OF r] run_recipients [OF rm] by (simp_all add: default_policy_def)
  moreover have "ubi_recipients r20 = 0" "ubi_recipients r50 = 30000" "ubi_recipients rall = 100000"
    using run_recipients [OF r20] run_recipients [OF r50] run_recipients [OF rall]
    by simp_all
  ultimately show ?thesis
    using r rm r20 r50 rall by blast
qed

text \<open>
  C8. With the reference table of four brackets and the target Everyone, every row is
  eligible and \<open>ubi_recipients\<close> is \<open>TOTAL_POP\<close>, that is 100000.
\<close>

theorem everyone_full_population:
  assumes "ubi_target p = ''Everyone''"
  shows "\<exists>res. run p = Inr res \<and> length (df res) = 4
     \<and> (\<forall>r\<in>set (df res). ubi_eligible r)
     \<and> ubi_recipients res = TOTAL_POP \<and> ubi_recipients res = 100000"
proof -
  from assms have "ubi_target p \<in> set UBI_TARGETS"
    by (simp add: UBI_TARGETS_def)
  then obtain res where run: "run p = Inr res"
    using run_returns by blast
  from run_shares [OF run] have "length (map group (df res)) = 4"
    by simp
  then have len: "length (df res) = 4" by simp
  from run_recipients [OF run] run_shares [OF run] assms
  have "map group (filter ubi_eligible (df res)) = map group (df res)"
    and rec: "ubi_recipients res = 100000"
    by simp_all
  then have "length (filter ubi_eligible (df res)) = length (df res)"
    by (metis length_map)
  then have all: "\<forall>r\<in>set (df res). ubi_eligible r"
    by (metis length_filter_less less_irrefl)
  from run len all rec
  have "run p = Inr res \<and> length (df res) = 4
     \<and> (\<forall>r\<in>set (df res). ubi_eligible r)
     \<and> ubi_recipients res = TOTAL_POP \<and> ubi_recipients res = 100000"
    by (simp add: TOTAL_POP_def)
  then show ?thesis ..
qed

theorem everyone_full_population_witness:
  "\<exists>res. run default_policy = Inr res \<and> length (df res) = 4
     \<and> filter ubi_eligible (df res) = df res \<and> ubi_recipients res = 100000"
proof -
  have "ubi_target default_policy = ''Everyone''"
    by (simp add: default_policy_def)
  from everyone_full_population [OF this] obtain res where
    "run default_policy = Inr res" "length (df res) = 4"
    "\<forall>r\<in>set (df res). ubi_eligible r" "ubi_recipients res = 100000"
    by blast
  then have "run default_policy = Inr res \<and> length (df res) = 4
     \<and> filter ubi_eligible (df res) = df res \<and> ubi_recipients res = 100000"
    by (simp add: filter_id_conv)
  then show ?thesis ..
qed

text \<open>
  C9. For any non-empty table and any of the three targets: when the three tax rates
  and \<open>ubi_monthly\<close> are 0, \<open>total_tax_revenue\<close> and \<open>total_ubi_cost\<close> are 0 and every
  row's disposable income is its \<open>avg_income\<close>.
\<close>

theorem zero_rate_boundary:
  assumes "gs \<noteq> []" and "ubi_target p \<in> set UBI_TARGETS"
    and "vat_rate p = 0" and "luxury_tax_rate p = 0" and "income_tax_rate p = 0"
    and "ubi_monthly p = 0"
  shows "\<exists>res. run_on gs p = Inr res
     \<and> total_tax_revenue res = 0 \<and> total_ubi_cost res = 0
     \<and> (\<forall>r\<in>set (df res). disposable_income_per_person r = of_int (avg_income r))"
proof -
  let ?dfe = "the (assign_ubi_eligible (ubi_target p) (ranked_table gs p))"
  from run_on_rows [OF assms(1,2)] obtain res where
    run: "run_on gs p = Inr res"
    and dfr: "df res = map (disposable_columns (ubi_monthly p * 12)) ?dfe"
    and trunc: "map tax_row.truncate (df res) = sort_key avg_income (tax_table gs p)"
    and rev: "total_tax_revenue res = sum_list (map total_tax_group (tax_table gs p))"
    and cost: "total_ubi_cost res = ubi_recipients res * (ubi_monthly p * 12)"
    by blast
  have "map total_tax_group (tax_table gs p) = map (\<lambda>r. 0) (population_table gs)"
    using assms(3-5) by (simp add: tax_table_def tax_columns_sel)
  with rev have r0: "total_tax_revenue res = 0" by simp
  from cost assms(6) have c0: "total_ubi_cost res = 0" by simp
  have disp: "disposable_income_per_person r = of_int (avg_income r)" if "r \<in> set (df res)" for r
  proof -
    from that dfr obtain x where r: "r = disposable_columns (ubi_monthly p * 12) x"
      by auto
    from that have "tax_row.truncate r \<in> set (map tax_row.truncate (df res))"
      by simp
    with trunc have "tax_row.truncate r \<in> set (tax_table gs p)"
      by simp
    then obtain r0 where "tax_row.truncate r = tax_columns p r0"
      by (auto simp: tax_table_def)
    then have "vat_tax_per_person (tax_row.truncate r) = 0"
      and "lux_tax_per_person (tax_row.truncate r) = 0"
      and "income_tax_per_person (tax_row.truncate r) = 0"
      using assms(3-5) by (simp_all add: tax_columns_sel)
    then have "vat_tax_per_person r = 0" "lux_tax_per_person r = 0" "income_tax_per_person r = 0"
      by (simp_all add: sel_truncate)
    with disposable_columns_identity [OF r] assms(6) show ?thesis
      by simp
  qed
  from run r0 c0 disp show ?thesis by blast
qed

theorem zero_rate_boundary_witness:
  "\<exists>res. run \<lparr>vat_rate = 0, luxury_tax_rate = 0, income_tax_rate = 0, ubi_monthly = 0,
               ubi_target = ''Bottom 50% income''\<rparr> = Inr res
     \<and> total_tax_revenue res = 0 \<and> total_ubi_cost res = 0
     \<and> map disposable_income_per_person (df res) = [20000, 40000, 80000, 200000]"
proof -
  let ?p = "\<lparr>vat_rate = 0, luxury_tax_rate = 0, income_tax_rate = 0, ubi_monthly = 0,
             ubi_target = ''Bottom 50% income''\<rparr>"
  have ne: "INCOME_GROUPS \<noteq> []"
    by (simp add: INCOME_GROUPS_def)
  have tg: "ubi_target ?p \<in> set UBI_TARGETS"
    by (simp add: UBI_TARGETS_def)
  from zero_rate_boundary [OF ne tg] obtain res where
    run: "run_on INCOME_GROUPS ?p = Inr res"
    and zero: "total_tax_revenue res = 0" "total_ubi_cost res = 0"
    and disp: "\<forall>r\<in>set (df res). disposable_income_per_person r = of_int (avg_income r)"
    by auto
  have "map avg_income (df r) = [20000, 40000, 80000, 200000]"
    if "run_on INCOME_GROUPS ?p = Inr r" for r
    using that
    by (auto simp: run_on_def population_table_map ref_defs stage_defs ext_defs)
  with run have inc: "map avg_income (df res) = [20000, 40000, 80000, 200000]"
    by simp
  have "map disposable_income_per_person (df res) = map (\<lambda>r. of_int (avg_income r)) (df res)"
    using disp by simp
  also have "\<dots> = map of_int (map avg_income (df res))"
    by simp
  finally have "map disposable_income_per_person (df res) = [20000, 40000, 80000, 200000]"
    by (simp add: inc)
  with run zero show ?thesis
    by (auto simp: run_def)
qed

text \<open>
  C10. For a table whose shares are not negative, each row's \<open>group_pop\<close> is the floor
  of \<open>TOTAL_POP\<close> times the group's share (the fraction is dropped, not rounded), and when
  the shares add up to at most 1 the counts add up to at most \<open>TOTAL_POP\<close>.
\<close>

theorem group_pop_is_floor:
  assumes "\<forall>g\<in>set gs. 0 \<le> pop_share g" and "sum_list (map pop_share gs) \<le> 1"
  shows "map group_pop (population_table gs) =
           map (\<lambda>g. \<lfloor>of_int TOTAL_POP * pop_share g\<rfloor>) gs
       \<and> sum_list (map group_pop (population_table gs)) \<le> TOTAL_POP"
proof -
  have nonneg: "0 \<le> (of_int TOTAL_POP :: rat) * pop_share g" if "g \<in> set gs" for g
    using that assms(1) by (simp add: TOTAL_POP_def)
  have counts: "map group_pop (population_table gs) =
      map (\<lambda>g. \<lfloor>of_int TOTAL_POP * pop_share g\<rfloor>) gs"
    by (simp add: population_table_map group_pop_make_row py_int_floor nonneg)
  have "(of_int (sum_list (map (\<lambda>g. \<lfloor>of_int TOTAL_POP * pop_share g\<rfloor>) gs)) :: rat)
      \<le> sum_list (map (\<lambda>g. of_int TOTAL_POP * pop_share g) gs)"
    by (rule sum_floor_le)
  also have "\<dots> = of_int TOTAL_POP * sum_list (map pop_share gs)"
    by (simp add: sum_list_const_mult)
  also have "\<dots> \<le> of_int TOTAL_POP * 1"
    by (rule mult_left_mono [OF assms(2)]) (simp add: TOTAL_POP_def)
  finally have "sum_list (map (\<lambda>g. \<lfloor>of_int TOTAL_POP * pop_share g\<rfloor>) gs) \<le> TOTAL_POP"
    by simp
  with counts show ?thesis by simp
qed

theorem group_pop_is_floor_witness:
  "map group_pop (population_table INCOME_GROUPS) = [30000, 40000, 20000, 10000]
   \<and> sum_list (map group_pop (population_table INCOME_GROUPS)) \<le> TOTAL_POP
   \<and> map group_pop (population_table
        [\<lparr>name = ''Low'', pop_share = 2 / 3, g_avg_income = 20000, g_mpc = 95 / 100\<rparr>])
      = [66666]"
proof -
  have a: "\<forall>g\<in>set INCOME_GROUPS. 0 \<le> pop_share g"
    by (simp add: INCOME_GROUPS_def)
  have b: "sum_list (map pop_share INCOME_GROUPS) \<le> 1"
    by (simp add: INCOME_GROUPS_def)
  let ?gs = "[\<lparr>name = ''Low'', pop_share = 2 / 3, g_avg_income = 20000, g_mpc = 95 / 100\<rparr>]"
  have c: "\<forall>g\<in>set ?gs. 0 \<le> pop_share g" by simp
  have d: "sum_list (map pop_share ?gs) \<le> 1" by simp
  have e: "\<lfloor>(200000 :: rat) / 3\<rfloor> = 66666"
    using floor_divide_of_int_eq [of 200000 3, where ?'a = rat] by simp
  show ?thesis
    using group_pop_is_floor [OF a b] group_pop_is_floor [OF c d] e
    by (simp add: INCOME_GROUPS_def TOTAL_POP_def)
qed

end
